theory Spec2Isabelle
  imports Main "HOL-Library.Multiset"
begin

section \<open>Tables, cells and exceptions\<close>

text \<open>
  The program (\<^verbatim>\<open>get_report.py\<close>) is a pipeline of pandas operations over one table.
  A table is modelled row by row: the list of its column labels, in order, and the list
  of its rows, each row holding one cell per column.  Labels may repeat, as they may in
  pandas (selecting with a list that names a label twice yields the column twice).

  A cell is a missing value (\<open>NaN\<close>), a number, a string or a calendar date.  Numbers are
  unbounded integers: the rounding of floating-point amounts is not modelled.

  An exception of the Python program is a value of type \<open>error\<close>; a function that may
  raise returns \<open>error + 'a\<close>, with \<open>Inl\<close> for the exception.
\<close>

datatype cell = NaN | Num int | Str string | Date nat nat nat

datatype error =
    KeyError "string list"
  | TypeError
  | AttributeError
  | IndexError
  | ValueError
  | NotASeries string

record 'h frame =
  columns :: "'h list"
  rows :: "cell list list"

text \<open>Every row has one cell for each column.\<close>

definition wf_frame :: "'h frame \<Rightarrow> bool" where
  "wf_frame df = list_all (\<lambda>r. length r = length (columns df)) (rows df)"

definition bind :: "error + 'a \<Rightarrow> ('a \<Rightarrow> error + 'b) \<Rightarrow> error + 'b" where
  "bind m f = (case m of Inl e \<Rightarrow> Inl e | Inr x \<Rightarrow> f x)"

text \<open>Python's \<^verbatim>\<open>sub in s\<close> on strings: \<open>sub\<close> occurs in \<open>s\<close> as a contiguous run.\<close>

fun str_in :: "string \<Rightarrow> string \<Rightarrow> bool" where
  "str_in sub [] = (sub = [])"
| "str_in sub (c # cs) = (take (length sub) (c # cs) = sub \<or> str_in sub cs)"

definition REVENUE_GENERATING_CATEGORIES :: "string list" where
  "REVENUE_GENERATING_CATEGORIES =
     [''Consultation'', ''Lab'', ''Radiology'', ''Procedure'', ''Lab'', ''Consumable'', ''Drug'']"


section \<open>The pandas operations the program uses\<close>

text \<open>
  The positions of the columns that carry a label, from left to right.
\<close>

definition positions :: "'h \<Rightarrow> 'h list \<Rightarrow> nat list" where
  "positions key cols = filter (\<lambda>i. cols ! i = key) [0..<length cols]"

text \<open>
  \<^verbatim>\<open>df[keys]\<close> with a list of labels: \<^verbatim>\<open>KeyError\<close> if a label names no column;
  otherwise, for each label of the list in turn, every column that carries it.
\<close>

definition getitem_list :: "string frame \<Rightarrow> string list \<Rightarrow> error + string frame" where
  "getitem_list df keys =
     (let missing = filter (\<lambda>k. k \<notin> set (columns df)) keys in
      if missing \<noteq> [] then Inl (KeyError missing)
      else
        let ps = concat (map (\<lambda>k. positions k (columns df)) keys) in
        Inr \<lparr>columns = map (\<lambda>i. columns df ! i) ps,
             rows = map (\<lambda>r. map (\<lambda>i. r ! i) ps) (rows df)\<rparr>)"

text \<open>
  \<^verbatim>\<open>df[key]\<close> with one label: \<^verbatim>\<open>KeyError\<close> if no column carries it, the column (a
  Series, here the list of its cells from the first row to the last) if exactly one
  does.  When several columns carry the label pandas returns a sub-table instead of a
  Series; what the program would go on to do with it is not modelled, and the outcome
  is recorded as \<open>NotASeries\<close>.
\<close>

definition getitem :: "string frame \<Rightarrow> string \<Rightarrow> error + cell list" where
  "getitem df key =
     (case positions key (columns df) of
        [] \<Rightarrow> Inl (KeyError [key])
      | [i] \<Rightarrow> Inr (map (\<lambda>r. r ! i) (rows df))
      | _ \<Rightarrow> Inl (NotASeries key))"

text \<open>
  \<^verbatim>\<open>df[key] = series\<close>: the cells of every column that carries the label are replaced; a
  new label adds a column on the right.  The series has one cell for each row.
\<close>

definition setitem :: "string frame \<Rightarrow> string \<Rightarrow> cell list \<Rightarrow> string frame" where
  "setitem df key series =
     (if key \<in> set (columns df)
      then \<lparr>columns = columns df,
            rows = map (\<lambda>(r, v). map (\<lambda>(c, x). if c = key then v else x) (zip (columns df) r))
                     (zip (rows df) series)\<rparr>
      else \<lparr>columns = columns df @ [key],
            rows = map (\<lambda>(r, v). r @ [v]) (zip (rows df) series)\<rparr>)"

text \<open>
  \<^verbatim>\<open>df.drop(labels, axis=1, inplace=True)\<close>: \<^verbatim>\<open>KeyError\<close> if a label names no column;
  otherwise every column that carries one of the labels is removed.
\<close>

definition drop_cols :: "string frame \<Rightarrow> string list \<Rightarrow> error + string frame" where
  "drop_cols df labels =
     (let missing = filter (\<lambda>k. k \<notin> set (columns df)) labels in
      if missing \<noteq> [] then Inl (KeyError missing)
      else
        let ps = filter (\<lambda>i. columns df ! i \<notin> set labels) [0..<length (columns df)] in
        Inr \<lparr>columns = map (\<lambda>i. columns df ! i) ps,
             rows = map (\<lambda>r. map (\<lambda>i. r ! i) ps) (rows df)\<rparr>)"

text \<open>
  \<^verbatim>\<open>df.dropna(axis=1, how="all")\<close>: a column stays if some row has a value in it.
\<close>

definition dropna_all :: "'h frame \<Rightarrow> 'h frame" where
  "dropna_all df =
     (let ps = filter (\<lambda>i. list_ex (\<lambda>r. r ! i \<noteq> NaN) (rows df)) [0..<length (columns df)] in
      \<lparr>columns = map (\<lambda>i. columns df ! i) ps,
       rows = map (\<lambda>r. map (\<lambda>i. r ! i) ps) (rows df)\<rparr>)"

text \<open>The first exception of a list of results, or all their values.\<close>

fun sequence :: "(error + 'a) list \<Rightarrow> error + 'a list" where
  "sequence [] = Inr []"
| "sequence (m # ms) = bind m (\<lambda>x. bind (sequence ms) (\<lambda>xs. Inr (x # xs)))"

text \<open>
  Python's \<^verbatim>\<open>+\<close> and \<^verbatim>\<open>-\<close> on two values: numbers add, strings concatenate, a missing
  number (a float) makes the result missing, anything else is a \<^verbatim>\<open>TypeError\<close>.
\<close>

fun py_add :: "cell \<Rightarrow> cell \<Rightarrow> error + cell" where
  "py_add (Num a) (Num b) = Inr (Num (a + b))"
| "py_add (Str a) (Str b) = Inr (Str (a @ b))"
| "py_add NaN (Num b) = Inr NaN"
| "py_add (Num a) NaN = Inr NaN"
| "py_add NaN NaN = Inr NaN"
| "py_add _ _ = Inl TypeError"


fun is_date :: "cell \<Rightarrow> bool" where
  "is_date (Date y m d) = True"
| "is_date _ = False"


text \<open>
  \<^verbatim>\<open>series_a + series_b\<close>, cell by cell along the rows.  pandas leaves a position missing
  when either side is missing there, and adds the two values otherwise.
\<close>

definition cell_add :: "cell \<Rightarrow> cell \<Rightarrow> error + cell" where
  "cell_add a b =
     (if is_date a \<or> is_date b then Inl TypeError
      else if a = NaN \<or> b = NaN then Inr NaN
      else py_add a b)"

definition series_add :: "cell list \<Rightarrow> cell list \<Rightarrow> error + cell list" where
  "series_add xs ys = sequence (map (\<lambda>(x, y). cell_add x y) (zip xs ys))"











text \<open>
  \<^verbatim>\<open>x.strftime("%Y-%m-%d")\<close> on a cell: a date is written with four, two and two
  digits (the dates of pandas have four-digit years); a missing date raises
  \<^verbatim>\<open>ValueError\<close>; numbers and strings have no such method.
\<close>

definition digit :: "nat \<Rightarrow> char" where
  "digit n = char_of (48 + n mod 10)"

definition strftime :: "cell \<Rightarrow> error + cell" where
  "strftime x =
     (case x of
        Date y m d \<Rightarrow>
          Inr (Str ([digit (y div 1000), digit (y div 100), digit (y div 10), digit y]
                    @ ''-'' @ [digit (m div 10), digit m] @ ''-'' @ [digit (d div 10), digit d]))
      | NaN \<Rightarrow> Inl ValueError
      | _ \<Rightarrow> Inl AttributeError)"

section \<open>DataFrameOperations.rename_cols\<close>


text \<open>
  \<^verbatim>\<open>
  for col_list in df.columns:
      new_col_name = ""
      for col in col_list:
          if "Unnamed" not in col:
              new_col_name += f"{col}_"
      rename_col_list.append(new_col_name[:-1])
  df.columns = rename_col_list
  \<close>
  A column label of the raw table is the tuple of its header tiers.  The inner loop is
  the fold \<open>rename_step\<close>; the slice \<^verbatim>\<open>[:-1]\<close> drops the last character and leaves the
  empty string empty, which is \<open>butlast\<close>.
\<close>

definition rename_step :: "string \<Rightarrow> string \<Rightarrow> string" where
  "rename_step new_col_name col =
     (if \<not> str_in ''Unnamed'' col then new_col_name @ col @ ''_'' else new_col_name)"

definition new_col_name_of :: "string list \<Rightarrow> string" where
  "new_col_name_of col_list = butlast (foldl rename_step '''' col_list)"

definition rename_cols :: "string list frame \<Rightarrow> string frame" where
  "rename_cols df = \<lparr>columns = map new_col_name_of (columns df), rows = rows df\<rparr>"

text \<open>
  The specification's wording of header flattening: the labels of the tiers that are not
  placeholders, joined with the separator.
\<close>

fun join_with :: "string \<Rightarrow> string list \<Rightarrow> string" where
  "join_with sep [] = ''''"
| "join_with sep [x] = x"
| "join_with sep (x # y # ys) = x @ sep @ join_with sep (y # ys)"

definition placeholder :: "string \<Rightarrow> bool" where
  "placeholder label = str_in ''Unnamed'' label"

definition flatten_spec :: "string list \<Rightarrow> string" where
  "flatten_spec tiers = join_with ''_'' (filter (\<lambda>t. \<not> placeholder t) tiers)"


section \<open>DataFrameOperations.focus_on_specific_columns\<close>

text \<open>
  \<^verbatim>\<open>
  required_cols = []
  for col in df.columns:
      if "_Net_" in col:
          required_cols.append(col)
  required_cols += ["Net Revenue", "Ins.", "Policy Name", "New Reg.", "Old Reg.",
                    "Speciality", "Doctor Name", "(CVR) Date"]
  df = df[required_cols]
  df["(CVR) Date"] = df["(CVR) Date"].apply(lambda x: x.strftime("%Y-%m-%d"))
  \<close>
\<close>

definition metadata_cols :: "string list" where
  "metadata_cols =
     [''Net Revenue'', ''Ins.'', ''Policy Name'', ''New Reg.'', ''Old Reg.'',
      ''Speciality'', ''Doctor Name'', ''(CVR) Date'']"

definition required_cols :: "string frame \<Rightarrow> string list" where
  "required_cols df = filter (\<lambda>col. str_in ''_Net_'' col) (columns df) @ metadata_cols"

definition focus_on_specific_columns :: "string frame \<Rightarrow> error + string frame" where
  "focus_on_specific_columns df =
     bind (getitem_list df (required_cols df)) (\<lambda>df1.
     bind (getitem df1 ''(CVR) Date'') (\<lambda>dates.
     bind (sequence (map strftime dates)) (\<lambda>formatted.
     Inr (setitem df1 ''(CVR) Date'' formatted))))"

section \<open>DataFrameOperations.get_revenue_per_category\<close>

text \<open>
  \<^verbatim>\<open>
  remove_cols = []
  for category in REVENUE_GENERATING_CATEGORIES:
      df[category] = df[category + "_Net_Cash"] + df[category + "_Net_Ins."]
      remove_cols.append(category + "_Net_Cash")
      remove_cols.append(category + "_Net_Ins.")
  df.drop(remove_cols, axis=1, inplace=True)
  \<close>
  \<open>folded_column\<close> is the right-hand side of the assignment in the loop.  The loop is
  \<open>fold_categories\<close>, the table being its state; \<open>remove_cols\<close> is the list the loop
  collects.  The list of categories is a parameter of \<open>fold_and_drop\<close>, so that the
  program's list can be compared with another one.
\<close>

definition folded_column :: "string frame \<Rightarrow> string \<Rightarrow> error + cell list" where
  "folded_column df category =
     bind (getitem df (category @ ''_Net_Cash'')) (\<lambda>cash.
     bind (getitem df (category @ ''_Net_Ins.'')) (\<lambda>ins.
     series_add cash ins))"

fun fold_categories :: "string list \<Rightarrow> string frame \<Rightarrow> error + string frame" where
  "fold_categories [] df = Inr df"
| "fold_categories (category # rest) df =
     bind (folded_column df category) (\<lambda>total.
     fold_categories rest (setitem df category total))"

definition remove_cols :: "string list \<Rightarrow> string list" where
  "remove_cols categories =
     concat (map (\<lambda>category. [category @ ''_Net_Cash'', category @ ''_Net_Ins.'']) categories)"

definition fold_and_drop :: "string list \<Rightarrow> string frame \<Rightarrow> error + string frame" where
  "fold_and_drop categories df =
     bind (fold_categories categories df) (\<lambda>df'. drop_cols df' (remove_cols categories))"

definition get_revenue_per_category :: "string frame \<Rightarrow> error + string frame" where
  "get_revenue_per_category df = fold_and_drop REVENUE_GENERATING_CATEGORIES df"

text \<open>The list of categories with the second \<^verbatim>\<open>"Lab"\<close> left out.\<close>

definition deduplicated_categories :: "string list" where
  "deduplicated_categories =
     [''Consultation'', ''Lab'', ''Radiology'', ''Procedure'', ''Consumable'', ''Drug'']"

section \<open>get_df_from_excel\<close>

text \<open>
  \<^verbatim>\<open>
  df = pd.read_excel(file_name, header=[3, 4, 5], skipfooter=8, index_col=0)
  df = df.dropna(axis=1, how="all")
  df = DataFrameOperations.rename_cols(df)
  df = DataFrameOperations.focus_on_specific_columns(df)
  df = DataFrameOperations.get_revenue_per_category(df)
  \<close>
  Reading the file is outside the model: the argument is the table \<^verbatim>\<open>read_excel\<close>
  returns, whose column labels are the tuples of the three header rows.
\<close>

definition get_df_from_excel :: "string list frame \<Rightarrow> error + string frame" where
  "get_df_from_excel raw =
     (let df = dropna_all raw;
          df = rename_cols df
      in bind (focus_on_specific_columns df) get_revenue_per_category)"

section \<open>Report\<close>

record Indicator =
  value_field :: cell
  title :: string

record PieChart =
  labels :: "string list"
  values_field :: "cell list"
  textinfo :: string

text \<open>
  \<^verbatim>\<open>x != 0\<close> on a cell is false for the number zero only.
  \<^verbatim>\<open>frame.map(lambda x: x != 0).sum().sum()\<close> counts the cells of each column for which
  it is true, then adds up the columns.
\<close>

definition nonzero :: "cell \<Rightarrow> bool" where
  "nonzero x = (x \<noteq> Num 0)"

definition count_nonzero :: "string frame \<Rightarrow> int" where
  "count_nonzero df =
     sum_list (map (\<lambda>i. int (length (filter (\<lambda>r. nonzero (r ! i)) (rows df))))
                 [0..<length (columns df)])"

definition calculate_number_of_episodes :: "string frame \<Rightarrow> error + Indicator" where
  "calculate_number_of_episodes df =
     bind (getitem_list df REVENUE_GENERATING_CATEGORIES) (\<lambda>sel.
     Inr \<lparr>value_field = Num (count_nonzero sel), title = ''Revenue Generating<br>Episodes''\<rparr>)"

definition calculate_number_of_patients :: "string frame \<Rightarrow> Indicator" where
  "calculate_number_of_patients df =
     \<lparr>value_field = Num (int (length (rows df))), title = ''Number of Patients''\<rparr>"






text \<open>
  \<^verbatim>\<open>
  episodes_per_category = {}
  for category in REVENUE_GENERATING_CATEGORIES:
      episodes = df[[category]].map(lambda x: x != 0).sum().sum()
      if episodes != 0:
          episodes_per_category[category] = episodes
  \<close>
  The dictionary keeps its keys in the order of their first insertion; assigning to a key
  it has replaces the value where the key stands.
\<close>

fun dict_set :: "(string \<times> cell) list \<Rightarrow> string \<Rightarrow> cell \<Rightarrow> (string \<times> cell) list" where
  "dict_set [] k v = [(k, v)]"
| "dict_set ((k', v') # d) k v = (if k' = k then (k, v) # d else (k', v') # dict_set d k v)"

fun episodes_loop ::
  "string frame \<Rightarrow> string list \<Rightarrow> (string \<times> cell) list \<Rightarrow> error + (string \<times> cell) list" where
  "episodes_loop df [] episodes_per_category = Inr episodes_per_category"
| "episodes_loop df (category # rest) episodes_per_category =
     bind (getitem_list df [category]) (\<lambda>sel.
       let episodes = count_nonzero sel in
       episodes_loop df rest
         (if episodes \<noteq> 0 then dict_set episodes_per_category category (Num episodes)
          else episodes_per_category))"

definition calculate_episodes_per_category :: "string frame \<Rightarrow> error + PieChart" where
  "calculate_episodes_per_category df =
     bind (episodes_loop df REVENUE_GENERATING_CATEGORIES []) (\<lambda>episodes_per_category.
     Inr \<lparr>labels = map fst episodes_per_category,
          values_field = map snd episodes_per_category,
          textinfo = ''label+value''\<rparr>)"






section \<open>Normalized tables\<close>

text \<open>
  The table the report is built from: rectangular, no label repeated, the category
  columns and the metadata columns present, strings (or nothing) in the four textual
  columns and numbers (or nothing) everywhere else.
\<close>

definition string_cols :: "string list" where
  "string_cols = [''Policy Name'', ''Speciality'', ''Doctor Name'', ''(CVR) Date'']"

definition cell_ok :: "string \<Rightarrow> cell \<Rightarrow> bool" where
  "cell_ok c x =
     (case x of
        NaN \<Rightarrow> True
      | Num n \<Rightarrow> c \<notin> set string_cols
      | Str s \<Rightarrow> c \<in> set string_cols
      | Date y m d \<Rightarrow> False)"

definition normalized :: "string frame \<Rightarrow> bool" where
  "normalized df =
     (wf_frame df \<and> distinct (columns df)
      \<and> list_all (\<lambda>c. c \<in> set (columns df)) (REVENUE_GENERATING_CATEGORIES @ metadata_cols)
      \<and> list_all (\<lambda>r. list_all (\<lambda>(c, x). cell_ok c x) (zip (columns df) r)) (rows df))"

section \<open>Quantities and tables the properties are stated with\<close>

text \<open>
  The number of cells of the column labelled \<open>key\<close> that are not zero (\<^verbatim>\<open>df[key]\<close>, then
  \<^verbatim>\<open>x != 0\<close> on each cell).
\<close>

definition nonzeros_in :: "string frame \<Rightarrow> string \<Rightarrow> int" where
  "nonzeros_in df key =
     (case getitem df key of Inr col \<Rightarrow> int (length (filter nonzero col)) | Inl e \<Rightarrow> 0)"

text \<open>
  The two-row table of the specification's example.  Row A: Consultation 100, net
  revenue 100, insurance 40, Cardiology, a new registration.  Row B: Lab 50, net revenue
  50, insurance 0, Cardiology, an old registration.  The example leaves the other
  categories, the policy, the doctor and the date open: here the other categories are
  zero, row B has no policy, and doctor and date are the same in both rows.
\<close>

definition example_columns :: "string list" where
  "example_columns =
     [''Net Revenue'', ''Ins.'', ''Policy Name'', ''New Reg.'', ''Old Reg.'', ''Speciality'',
      ''Doctor Name'', ''(CVR) Date'',
      ''Consultation'', ''Lab'', ''Radiology'', ''Procedure'', ''Consumable'', ''Drug'']"

definition example_table :: "string frame" where
  "example_table =
     \<lparr>columns = example_columns,
      rows =
        [[Num 100, Num 40, Str ''Policy'', Num 1, Num 0, Str ''Cardiology'', Str ''Doctor'',
          Str ''2024-01-05'', Num 100, Num 0, Num 0, Num 0, Num 0, Num 0],
         [Num 50, Num 0, NaN, Num 0, Num 1, Str ''Cardiology'', Str ''Doctor'',
          Str ''2024-01-05'', Num 0, Num 50, Num 0, Num 0, Num 0, Num 0]]\<rparr>"

text \<open>
  The invariant of the dictionary \<^verbatim>\<open>episodes_per_category\<close> during the loop: no key
  twice, and under each key the count of non-zero cells of its column, which is not zero.
\<close>

definition dict_ok :: "string frame \<Rightarrow> (string \<times> cell) list \<Rightarrow> bool" where
  "dict_ok df d =
     (distinct (map fst d)
      \<and> list_all (\<lambda>(k, v). v = Num (nonzeros_in df k) \<and> nonzeros_in df k \<noteq> 0) d)"




fun is_str :: "cell \<Rightarrow> bool" where
  "is_str (Str s) = True"
| "is_str c = False"

definition textual :: "cell \<Rightarrow> bool" where
  "textual x = (x = NaN \<or> is_str x)"



section \<open>Properties of header flattening\<close>

lemma foldl_rename_step:
  "foldl rename_step acc tiers =
     acc @ concat (map (\<lambda>t. t @ ''_'') (filter (\<lambda>t. \<not> placeholder t) tiers))"
  by (induction tiers arbitrary: acc) (simp_all add: rename_step_def placeholder_def)

lemma butlast_concat_sep:
  "butlast (concat (map (\<lambda>t. t @ ''_'') ts)) = join_with ''_'' ts"
proof (induction ts rule: induct_list012)
  case 1
  show ?case by simp
next
  case (2 x)
  show ?case by simp
next
  case (3 x y ys)
  have "concat (map (\<lambda>t. t @ ''_'') (y # ys)) \<noteq> []" by simp
  then show ?case using 3 by (simp add: butlast_append)
qed

lemma new_col_name_of_spec: "new_col_name_of tiers = flatten_spec tiers"
  by (simp add: new_col_name_of_def flatten_spec_def foldl_rename_step butlast_concat_sep)

text \<open>
  C7.  \<open>rename_cols\<close> gives every column the labels of its header tiers joined with an
  underscore, the tiers whose label contains the placeholder marker left out and no
  separator after the last one; the cells are unchanged; a column whose tiers are all
  placeholders gets the empty string.
\<close>

theorem rename_cols_flattens:
  "columns (rename_cols df) = map flatten_spec (columns df)
   \<and> rows (rename_cols df) = rows df
   \<and> new_col_name_of [t1, t2, t3] = join_with ''_'' (filter (\<lambda>t. \<not> placeholder t) [t1, t2, t3])
   \<and> ((\<forall>t \<in> set tiers. placeholder t) \<longrightarrow> new_col_name_of tiers = '''')"
proof -
  have "new_col_name_of tiers = ''''" if "\<forall>t \<in> set tiers. placeholder t"
  proof -
    from that have "filter (\<lambda>t. \<not> placeholder t) tiers = []" by (simp add: filter_empty_conv)
    then show ?thesis by (simp add: new_col_name_of_spec flatten_spec_def)
  qed
  moreover have "new_col_name_of [t1, t2, t3]
      = join_with ''_'' (filter (\<lambda>t. \<not> placeholder t) [t1, t2, t3])"
    using new_col_name_of_spec[of "[t1, t2, t3]"] by (simp only: flatten_spec_def)
  ultimately show ?thesis
    by (simp add: rename_cols_def new_col_name_of_spec)
qed

theorem rename_cols_flattens_witness:
  "columns (rename_cols \<lparr>columns = [[''Lab'', ''Net'', ''Cash''],
                                     [''Speciality'', ''Unnamed: 5_level_1'', ''Unnamed: 5_level_2'']],
                          rows = [[Num 1, Str ''x'']]\<rparr>)
     = [''Lab_Net_Cash'', ''Speciality'']
   \<and> new_col_name_of [''Lab'', ''Unnamed: 3_level_1'', ''Cash''] = ''Lab_Cash''
   \<and> new_col_name_of [''Unnamed: 0_level_0'', ''Unnamed: 0_level_1'', ''Unnamed: 0_level_2''] = ''''"
  using rename_cols_flattens
    [of "\<lparr>columns = [[''Lab'', ''Net'', ''Cash''],
                      [''Speciality'', ''Unnamed: 5_level_1'', ''Unnamed: 5_level_2'']],
           rows = [[Num 1, Str ''x'']]\<rparr>"
        "''Lab''" "''Unnamed: 3_level_1''" "''Cash''"
        "[''Unnamed: 0_level_0'', ''Unnamed: 0_level_1'', ''Unnamed: 0_level_2'']"]
  by (simp add: flatten_spec_def placeholder_def)

section \<open>Selecting columns\<close>

lemma filter_upt_single:
  "i < n \<Longrightarrow> (\<And>j. j < n \<Longrightarrow> P j \<longleftrightarrow> j = i) \<Longrightarrow> filter P [0..<n] = [i]"
proof (induction n)
  case 0
  then show ?case by simp
next
  case (Suc n)
  show ?case
  proof (cases "i = n")
    case True
    have "filter P [0..<n] = []"
      using Suc.prems(2) True by (auto simp: filter_empty_conv)
    then show ?thesis using True Suc.prems(2)[of n] by simp
  next
    case False
    then have "i < n" using Suc.prems(1) by simp
    moreover have "\<And>j. j < n \<Longrightarrow> P j \<longleftrightarrow> j = i" using Suc.prems(2) by simp
    ultimately have "filter P [0..<n] = [i]" by (rule Suc.IH)
    moreover have "\<not> P n" using Suc.prems(2)[of n] False by simp
    ultimately show ?thesis by simp
  qed
qed

lemma positions_unique:
  "distinct cols \<Longrightarrow> i < length cols \<Longrightarrow> positions (cols ! i) cols = [i]"
  unfolding positions_def
  by (rule filter_upt_single) (auto simp: nth_eq_iff_index_eq)

lemma positions_absent: "key \<notin> set cols \<Longrightarrow> positions key cols = []"
  by (auto simp: positions_def filter_empty_conv)

lemma positions_present:
  "distinct cols \<Longrightarrow> key \<in> set cols \<Longrightarrow> \<exists>i < length cols. cols ! i = key \<and> positions key cols = [i]"
  by (metis in_set_conv_nth positions_unique)

lemma getitem_absent: "key \<notin> set (columns df) \<Longrightarrow> getitem df key = Inl (KeyError [key])"
  by (simp add: getitem_def positions_absent)

lemma getitem_present:
  "distinct (columns df) \<Longrightarrow> key \<in> set (columns df) \<Longrightarrow>
   \<exists>i < length (columns df). columns df ! i = key \<and> positions key (columns df) = [i]
      \<and> getitem df key = Inr (map (\<lambda>r. r ! i) (rows df))"
  using positions_present[of "columns df" key] by (auto simp: getitem_def)

section \<open>The number of episodes\<close>

lemma map_over_indices: "map (\<lambda>j. g (ps ! j)) [0..<length ps] = map g ps"
proof -
  have "map g ps = map g (map (\<lambda>j. ps ! j) [0..<length ps])" by (simp only: map_nth)
  then show ?thesis by (simp add: o_def)
qed

lemma count_nonzero_select:
  "count_nonzero \<lparr>columns = map f ps, rows = map (\<lambda>r. map (\<lambda>i. r ! i) ps) rs\<rparr>
     = sum_list (map (\<lambda>p. int (length (filter (\<lambda>r. nonzero (r ! p)) rs))) ps)"
proof -
  have "map (\<lambda>j. int (length (filter (\<lambda>r. nonzero (r ! j)) (map (\<lambda>r. map (\<lambda>i. r ! i) ps) rs))))
            [0..<length ps]
        = map (\<lambda>j. int (length (filter (\<lambda>r. nonzero (r ! (ps ! j))) rs))) [0..<length ps]"
    by (rule map_cong) (simp_all add: filter_map o_def)
  also have "\<dots> = map (\<lambda>p. int (length (filter (\<lambda>r. nonzero (r ! p)) rs))) ps"
    by (rule map_over_indices)
  finally show ?thesis by (simp add: count_nonzero_def)
qed

lemma getitem_list_present:
  "set keys \<subseteq> set (columns df) \<Longrightarrow>
   getitem_list df keys =
     Inr \<lparr>columns = map (\<lambda>i. columns df ! i) (concat (map (\<lambda>k. positions k (columns df)) keys)),
          rows = map (\<lambda>r. map (\<lambda>i. r ! i) (concat (map (\<lambda>k. positions k (columns df)) keys)))
                   (rows df)\<rparr>"
  by (auto simp: getitem_list_def filter_empty_conv Let_def)

lemma sum_positions_nonzeros:
  assumes "distinct (columns df)" "key \<in> set (columns df)"
  shows "sum_list (map (\<lambda>p. int (length (filter (\<lambda>r. nonzero (r ! p)) (rows df))))
                    (positions key (columns df))) = nonzeros_in df key"
proof -
  obtain i where "positions key (columns df) = [i]"
    "getitem df key = Inr (map (\<lambda>r. r ! i) (rows df))"
    using getitem_present[OF assms] by blast
  then show ?thesis by (simp add: nonzeros_in_def filter_map o_def)
qed

lemma count_nonzero_getitem_list:
  assumes "distinct (columns df)" "set keys \<subseteq> set (columns df)"
  shows "\<exists>sel. getitem_list df keys = Inr sel
           \<and> count_nonzero sel = sum_list (map (nonzeros_in df) keys)"
proof -
  let ?g = "\<lambda>p. int (length (filter (\<lambda>r. nonzero (r ! p)) (rows df)))"
  have "sum_list (map ?g (concat (map (\<lambda>k. positions k (columns df)) keys)))
        = sum_list (map (nonzeros_in df) keys)"
    using assms(2)
  proof (induction keys)
    case Nil
    show ?case by simp
  next
    case (Cons k keys)
    then show ?case using sum_positions_nonzeros[OF assms(1), of k] by simp
  qed
  then show ?thesis
    using getitem_list_present[OF assms(2)] count_nonzero_select by simp
qed

lemma episodes_value:
  assumes "distinct (columns df)" "set REVENUE_GENERATING_CATEGORIES \<subseteq> set (columns df)"
  shows "calculate_number_of_episodes df =
           Inr \<lparr>value_field = Num (sum_list (map (nonzeros_in df) REVENUE_GENERATING_CATEGORIES)),
                title = ''Revenue Generating<br>Episodes''\<rparr>"
  using count_nonzero_getitem_list[OF assms]
  by (auto simp: calculate_number_of_episodes_def bind_def)

lemma normalized_distinct: "normalized df \<Longrightarrow> distinct (columns df)"
  by (simp add: normalized_def)

lemma normalized_wf: "normalized df \<Longrightarrow> wf_frame df"
  by (simp add: normalized_def)

lemma normalized_categories:
  "normalized df \<Longrightarrow> set REVENUE_GENERATING_CATEGORIES \<subseteq> set (columns df)"
  by (auto simp: normalized_def list_all_iff)


text \<open>
  C2.  On a normalized table the number of episodes is the number of non-zero cells of
  the category columns, added up along the list of the seven entries as it stands: the
  column \<^verbatim>\<open>Lab\<close>, listed twice, is counted twice.
\<close>

theorem episodes_count_lab_twice:
  assumes "normalized df"
  shows "calculate_number_of_episodes df =
           Inr \<lparr>value_field = Num (sum_list (map (nonzeros_in df) REVENUE_GENERATING_CATEGORIES)),
                title = ''Revenue Generating<br>Episodes''\<rparr>
         \<and> length REVENUE_GENERATING_CATEGORIES = 7
         \<and> sum_list (map (nonzeros_in df) REVENUE_GENERATING_CATEGORIES)
             = nonzeros_in df ''Consultation'' + 2 * nonzeros_in df ''Lab''
               + nonzeros_in df ''Radiology'' + nonzeros_in df ''Procedure''
               + nonzeros_in df ''Consumable'' + nonzeros_in df ''Drug''"
proof -
  have "calculate_number_of_episodes df =
           Inr \<lparr>value_field = Num (sum_list (map (nonzeros_in df) REVENUE_GENERATING_CATEGORIES)),
                title = ''Revenue Generating<br>Episodes''\<rparr>"
    using assms by (intro episodes_value normalized_distinct normalized_categories)
  moreover have "sum_list (map (nonzeros_in df) REVENUE_GENERATING_CATEGORIES)
             = nonzeros_in df ''Consultation'' + 2 * nonzeros_in df ''Lab''
               + nonzeros_in df ''Radiology'' + nonzeros_in df ''Procedure''
               + nonzeros_in df ''Consumable'' + nonzeros_in df ''Drug''"
    by (simp add: REVENUE_GENERATING_CATEGORIES_def)
  moreover have "length REVENUE_GENERATING_CATEGORIES = 7"
    by (simp add: REVENUE_GENERATING_CATEGORIES_def)
  ultimately show ?thesis by simp
qed

section \<open>The number of patients\<close>

text \<open>
  C8.  The number of patients is the number of rows of the table, and a table with the
  same rows in another order has the same number of patients.
\<close>

theorem patients_row_count:
  "calculate_number_of_patients df
     = \<lparr>value_field = Num (int (length (rows df))), title = ''Number of Patients''\<rparr>
   \<and> (mset rows' = mset (rows df) \<longrightarrow>
        calculate_number_of_patients (df\<lparr>rows := rows'\<rparr>) = calculate_number_of_patients df)"
proof -
  have "length rows' = length (rows df)" if "mset rows' = mset (rows df)"
    using that by (rule mset_eq_length)
  then show ?thesis by (simp add: calculate_number_of_patients_def)
qed

section \<open>The example table\<close>

lemma normalized_example: "normalized example_table"
  by code_simp

theorem episodes_count_lab_twice_witness:
  "normalized example_table
   \<and> calculate_number_of_episodes example_table =
       Inr \<lparr>value_field = Num 3, title = ''Revenue Generating<br>Episodes''\<rparr>
   \<and> nonzeros_in example_table ''Consultation'' = 1
   \<and> nonzeros_in example_table ''Lab'' = 1"
proof -
  have "nonzeros_in example_table ''Consultation'' = 1" by code_simp
  moreover have "nonzeros_in example_table ''Lab'' = 1" by code_simp
  moreover have "nonzeros_in example_table ''Radiology'' = 0" by code_simp
  moreover have "nonzeros_in example_table ''Procedure'' = 0" by code_simp
  moreover have "nonzeros_in example_table ''Consumable'' = 0" by code_simp
  moreover have "nonzeros_in example_table ''Drug'' = 0" by code_simp
  ultimately show ?thesis
    using episodes_count_lab_twice[OF normalized_example] normalized_example by simp
qed

theorem patients_row_count_witness:
  "mset (rev (rows example_table)) = mset (rows example_table)
   \<and> calculate_number_of_patients (example_table\<lparr>rows := rev (rows example_table)\<rparr>)
       = \<lparr>value_field = Num 2, title = ''Number of Patients''\<rparr>"
proof -
  have m: "mset (rev (rows example_table)) = mset (rows example_table)" by simp
  have "length (rows example_table) = 2" by (simp add: example_table_def)
  then show ?thesis
    using m patients_row_count[of example_table "rev (rows example_table)"] by simp
qed









section \<open>Episodes per category\<close>

lemma dict_set_keys:
  "map fst (dict_set d k v) = (if k \<in> set (map fst d) then map fst d else map fst d @ [k])"
  by (induction d) force+

lemma dict_set_key_set: "set (map fst (dict_set d k v)) = insert k (set (map fst d))"
  by (simp only: dict_set_keys) auto

lemma dict_set_entries: "set (dict_set d k v) \<subseteq> insert (k, v) (set d)"
  by (induction d) (auto split: if_splits)

lemma dict_ok_set:
  assumes "dict_ok df d" "nonzeros_in df k \<noteq> 0"
  shows "dict_ok df (dict_set d k (Num (nonzeros_in df k)))"
proof -
  have "distinct (map fst (dict_set d k (Num (nonzeros_in df k))))"
    using assms(1) by (simp add: dict_set_keys dict_ok_def)
  moreover have "list_all (\<lambda>(k, v). v = Num (nonzeros_in df k) \<and> nonzeros_in df k \<noteq> 0)
                   (dict_set d k (Num (nonzeros_in df k)))"
    using assms dict_set_entries[of d k "Num (nonzeros_in df k)"]
    by (auto simp: dict_ok_def list_all_iff)
  ultimately show ?thesis by (simp add: dict_ok_def)
qed

lemma count_nonzero_single:
  assumes "distinct (columns df)" "category \<in> set (columns df)"
  shows "\<exists>sel. getitem_list df [category] = Inr sel \<and> count_nonzero sel = nonzeros_in df category"
  using count_nonzero_getitem_list[OF assms(1), of "[category]"] assms(2) by simp

lemma episodes_loop_inv:
  assumes "distinct (columns df)"
  shows "set cats \<subseteq> set (columns df) \<Longrightarrow> dict_ok df d \<Longrightarrow>
         \<exists>d'. episodes_loop df cats d = Inr d' \<and> dict_ok df d'
            \<and> set (map fst d') = set (map fst d) \<union> {c \<in> set cats. nonzeros_in df c \<noteq> 0}"
proof (induction cats arbitrary: d)
  case Nil
  then show ?case by simp
next
  case (Cons c cats)
  obtain sel where sel: "getitem_list df [c] = Inr sel" "count_nonzero sel = nonzeros_in df c"
    using count_nonzero_single[OF assms, of c] Cons.prems(1) by auto
  let ?d = "if nonzeros_in df c \<noteq> 0 then dict_set d c (Num (nonzeros_in df c)) else d"
  have ok: "dict_ok df ?d" using Cons.prems(2) by (simp add: dict_ok_set)
  have keys: "set (map fst ?d) = set (map fst d) \<union> {x \<in> {c}. nonzeros_in df x \<noteq> 0}"
    by (simp only: dict_set_key_set split: if_splits) auto
  obtain d' where d': "episodes_loop df cats ?d = Inr d'" "dict_ok df d'"
    "set (map fst d') = set (map fst ?d) \<union> {c \<in> set cats. nonzeros_in df c \<noteq> 0}"
    using Cons.IH[OF _ ok] Cons.prems(1) by auto
  have "episodes_loop df (c # cats) d = Inr d'"
    using sel d'(1) by (cases "nonzeros_in df c = 0") (simp_all add: bind_def Let_def)
  moreover have "set (map fst d') = set (map fst d) \<union> {x \<in> set (c # cats). nonzeros_in df x \<noteq> 0}"
    unfolding d'(3) keys by auto
  ultimately show ?case using d'(2) by blast
qed

lemma categories_card: "card (set REVENUE_GENERATING_CATEGORIES) \<le> 6"
proof -
  have "set REVENUE_GENERATING_CATEGORIES = set deduplicated_categories"
    by (auto simp: REVENUE_GENERATING_CATEGORIES_def deduplicated_categories_def)
  moreover have "card (set deduplicated_categories) \<le> length deduplicated_categories"
    by (rule card_length)
  ultimately show ?thesis by (simp add: deduplicated_categories_def)
qed

lemma episodes_per_category_chart:
  assumes "normalized df"
  shows "\<exists>pie. calculate_episodes_per_category df = Inr pie
           \<and> set (labels pie) \<subseteq> set REVENUE_GENERATING_CATEGORIES
           \<and> distinct (labels pie)
           \<and> length (labels pie) \<le> 7
           \<and> length (values_field pie) = length (labels pie)
           \<and> (\<forall>i < length (labels pie).
                 values_field pie ! i = Num (nonzeros_in df (labels pie ! i))
                 \<and> nonzeros_in df (labels pie ! i) \<noteq> 0)
           \<and> (\<forall>c \<in> set REVENUE_GENERATING_CATEGORIES.
                 c \<in> set (labels pie) \<longleftrightarrow> nonzeros_in df c \<noteq> 0)"
proof -
  have "dict_ok df []" by (simp add: dict_ok_def)
  then obtain d where d: "episodes_loop df REVENUE_GENERATING_CATEGORIES [] = Inr d"
    "dict_ok df d"
    "set (map fst d) = {c \<in> set REVENUE_GENERATING_CATEGORIES. nonzeros_in df c \<noteq> 0}"
    using episodes_loop_inv[OF normalized_distinct[OF assms] normalized_categories[OF assms], of "[]"]
    by auto
  let ?pie = "\<lparr>labels = map fst d, values_field = map snd d, textinfo = ''label+value''\<rparr>"
  have run: "calculate_episodes_per_category df = Inr ?pie"
    using d(1) by (simp add: calculate_episodes_per_category_def bind_def)
  have sub: "set (map fst d) \<subseteq> set REVENUE_GENERATING_CATEGORIES" using d(3) by auto
  have dist: "distinct (map fst d)" using d(2) by (simp add: dict_ok_def)
  have "length (map fst d) = card (set (map fst d))"
    using distinct_card[OF dist] by simp
  also have "\<dots> \<le> card (set REVENUE_GENERATING_CATEGORIES)"
    using sub by (intro card_mono) simp_all
  finally have len: "length (map fst d) \<le> 7" using categories_card by linarith
  have vals: "snd (d ! i) = Num (nonzeros_in df (fst (d ! i))) \<and> nonzeros_in df (fst (d ! i)) \<noteq> 0"
    if "i < length d" for i
  proof -
    have "d ! i \<in> set d" using that by simp
    then show ?thesis using d(2) by (auto simp: dict_ok_def list_all_iff)
  qed
  show ?thesis
    using run sub dist len vals d(3) by (intro exI[of _ ?pie]) auto
qed


text \<open>
  C6.  On a normalized table \<open>calculate_episodes_per_category\<close> returns a chart whose
  labels are categories of the fixed list, none twice, at most seven; the value beside
  each label is the count of non-zero cells of that category's column and is not zero; a
  category is among the labels exactly when its count is not zero.
\<close>

theorem episodes_per_category_nonzero:
  assumes "normalized df"
  shows "\<exists>pie. calculate_episodes_per_category df = Inr pie
           \<and> set (labels pie) \<subseteq> set REVENUE_GENERATING_CATEGORIES
           \<and> distinct (labels pie)
           \<and> length (labels pie) \<le> 7
           \<and> length (values_field pie) = length (labels pie)
           \<and> (\<forall>i < length (labels pie).
                 values_field pie ! i = Num (nonzeros_in df (labels pie ! i))
                 \<and> nonzeros_in df (labels pie ! i) \<noteq> 0)
           \<and> (\<forall>c \<in> set REVENUE_GENERATING_CATEGORIES.
                 c \<in> set (labels pie) \<longleftrightarrow> nonzeros_in df c \<noteq> 0)"
  using assms by (rule episodes_per_category_chart)

lemma example_episodes_per_category:
  "calculate_episodes_per_category example_table =
     Inr \<lparr>labels = [''Consultation'', ''Lab''], values_field = [Num 1, Num 1],
          textinfo = ''label+value''\<rparr>"
  by code_simp

theorem episodes_per_category_nonzero_witness:
  "normalized example_table
   \<and> calculate_episodes_per_category example_table =
       Inr \<lparr>labels = [''Consultation'', ''Lab''], values_field = [Num 1, Num 1],
            textinfo = ''label+value''\<rparr>
   \<and> nonzeros_in example_table ''Drug'' = 0"
proof -
  obtain pie where pie: "calculate_episodes_per_category example_table = Inr pie"
    "\<forall>c \<in> set REVENUE_GENERATING_CATEGORIES.
       c \<in> set (labels pie) \<longleftrightarrow> nonzeros_in example_table c \<noteq> 0"
    using episodes_per_category_nonzero[OF normalized_example] by blast
  have "Inr pie = (Inr \<lparr>labels = [''Consultation'', ''Lab''], values_field = [Num 1, Num 1],
            textinfo = ''label+value''\<rparr> :: error + PieChart)"
    using pie(1) by (simp only: example_episodes_per_category)
  then have "pie = \<lparr>labels = [''Consultation'', ''Lab''], values_field = [Num 1, Num 1],
            textinfo = ''label+value''\<rparr>"
    by (simp only: sum.inject)
  then have "labels pie = [''Consultation'', ''Lab'']"
    by (simp only: PieChart.select_convs)
  moreover have "''Drug'' \<in> set REVENUE_GENERATING_CATEGORIES"
    by (simp add: REVENUE_GENERATING_CATEGORIES_def)
  ultimately have "''Drug'' \<in> set [''Consultation'', ''Lab'']
      \<longleftrightarrow> nonzeros_in example_table ''Drug'' \<noteq> 0"
    using bspec[OF pie(2), of "''Drug''"] by (simp only:)
  moreover have "''Drug'' \<notin> set [''Consultation'', ''Lab'']" by simp
  ultimately have "nonzeros_in example_table ''Drug'' = 0" by blast
  then show ?thesis
    using normalized_example example_episodes_per_category by simp
qed

section \<open>Sums of columns\<close>




lemma textual_not_date: "textual x \<Longrightarrow> \<not> is_date x"
  by (cases x) (simp_all add: textual_def)


lemma textual_no_date: "list_all textual cs \<Longrightarrow> \<not> list_ex is_date cs"
  by (auto simp: list_all_iff list_ex_iff dest: textual_not_date)
























section \<open>Revenue per speciality\<close>

















section \<open>The figure and its charts\<close>











end
